theory Spec2Isabelle
  imports Main "HOL-Library.AList"
begin

section \<open>Reducer utilities of redux-firestore (\<open>src/utils/reducers.js\<close>)\<close>

subsection \<open>Values\<close>

text \<open>
  A string-valued parameter or field that may be missing is a \<open>string option\<close>:
  \<open>None\<close> is JavaScript's \<open>undefined\<close>. The tests \<open>path ? \<dots>\<close>,
  \<open>if (storeAs)\<close> and \<open>!collection\<close> of the source ask for truthiness, and the
  empty string is falsy as \<open>undefined\<close> is.
\<close>

definition truthy :: "string option \<Rightarrow> bool" where
  "truthy v = (case v of None \<Rightarrow> False | Some s \<Rightarrow> s \<noteq> [])"

text \<open>The string held by a field; it is only read where the field is truthy.\<close>

definition str :: "string option \<Rightarrow> string" where
  "str v = (case v of None \<Rightarrow> [] | Some s \<Rightarrow> s)"

text \<open>
  The source throws \<open>new Error(message)\<close>; a thrown error is the \<open>Inl\<close> of a
  sum. The three errors of the module are told apart by their messages.
\<close>

datatype error = Error string

definition MissingMetaError :: error where
  "MissingMetaError = Error ''Action meta is required to build path for reducers.''"

definition MissingCollectionError :: error where
  "MissingCollectionError = Error ''Collection is required to construct reducer path.''"

definition InvalidPreserveSettingError :: error where
  "InvalidPreserveSettingError =
     Error ''Invalid preserve parameter. It must be an Object or an Array''"

text \<open>
  A property value is \<open>undefined\<close>, a value of the application's, or one of the
  built-in values that every plain object inherits from \<open>Object.prototype\<close>:
  \<open>Builtin name\<close> is what \<open>Object.prototype\<close> holds under \<open>name\<close> (the function
  \<open>Object\<close> for \<open>constructor\<close>, the prototype object itself for \<open>__proto__\<close>).
  The application's values are taken to be data: they carry no accessor properties.
\<close>

datatype 'v val = Undefined | Val 'v | Builtin string

text \<open>
  An object is a plain object (its prototype is \<open>Object.prototype\<close>), given by the
  list of its own enumerable properties in the order of their creation. That is the
  order of \<open>Object.keys\<close> except for integer-like keys, which \<open>Object.keys\<close> lists
  first; the only object whose order is read is the reducer map, which is taken as
  listed in the order of \<open>Object.keys\<close>.
\<close>

type_synonym 'v object = "(string \<times> 'v val) list"

text \<open>The property names of \<open>Object.prototype\<close> (ECMAScript, with its Annex B).\<close>

definition objectPrototype :: "string list" where
  "objectPrototype =
     [''constructor'', ''__defineGetter__'', ''__defineSetter__'', ''hasOwnProperty'',
      ''__lookupGetter__'', ''__lookupSetter__'', ''isPrototypeOf'',
      ''propertyIsEnumerable'', ''toString'', ''valueOf'', ''__proto__'',
      ''toLocaleString'']"

text \<open>
  The read \<open>obj[key]\<close>: the object's own property, else the property inherited
  from \<open>Object.prototype\<close>, else \<open>undefined\<close>.
\<close>

definition getProp :: "'v object \<Rightarrow> string \<Rightarrow> 'v val" where
  "getProp obj key =
     (case map_of obj key of
        Some v \<Rightarrow> v
      | None \<Rightarrow> if key \<in> set objectPrototype then Builtin key else Undefined)"

text \<open>
  The assignment \<open>obj[key] = v\<close>: it overwrites the own property in place or adds
  it at the end, which is \<open>AList.update\<close>. On an object without an own property
  \<open>__proto__\<close> the assignment to \<open>__proto__\<close> runs the setter inherited from
  \<open>Object.prototype\<close> instead, which creates no property.
\<close>

definition setProp :: "string \<Rightarrow> 'v val \<Rightarrow> 'v object \<Rightarrow> 'v object" where
  "setProp key v obj =
     (if key = ''__proto__'' \<and> map_of obj key = None then obj else AList.update key v obj)"

text \<open>
  Where a claim is about the identity of an object or array, the objects live in a
  store: a list of cells, the address of a cell being its index. A literal \<open>{}\<close> and
  \<open>Array.prototype.map\<close> allocate a new cell at the end.
\<close>

type_synonym addr = nat
type_synonym 'c store = "'c list"

definition alloc :: "'c store \<Rightarrow> 'c \<Rightarrow> 'c store \<times> addr" where
  "alloc h c = (h @ [c], length h)"

subsection \<open>Path strings\<close>

text \<open>
  \<open>path.split(/\//)\<close>: the pieces of the string between slashes, in order; a string
  with n slashes has n + 1 pieces, some of them possibly empty.
\<close>

primrec split_slash :: "string \<Rightarrow> string list" where
  "split_slash [] = [[]]"
| "split_slash (c # cs) =
     (if c = CHR ''/'' then [] # split_slash cs
      else (case split_slash cs of [] \<Rightarrow> [[c]] | w # ws \<Rightarrow> (c # w) # ws))"

text \<open>\<open>Array.prototype.join\<close> on an array of strings.\<close>

fun join :: "string \<Rightarrow> string list \<Rightarrow> string" where
  "join sep [] = []"
| "join sep [x] = x"
| "join sep (x # y # ys) = x @ sep @ join sep (y # ys)"

definition pathToArr :: "string option \<Rightarrow> string list" where
  "pathToArr path =
     (if truthy path then filter (\<lambda>p. p \<noteq> []) (split_slash (str path)) else [])"

definition getSlashStrPath :: "string option \<Rightarrow> string" where
  "getSlashStrPath path = join ''/'' (pathToArr path)"

definition getDotStrPath :: "string option \<Rightarrow> string" where
  "getDotStrPath path = join ''.'' (pathToArr path)"

subsection \<open>combineReducers\<close>

text \<open>
  The reducer map is an object whose values are reducers; a reducer is a function of
  the sub-state (possibly \<open>undefined\<close>) and the action. The state argument is the
  address of an object in the store, or \<open>None\<close> when the caller passes
  \<open>undefined\<close>, in which case the default \<open>{}\<close> is allocated. The callback of
  \<open>reduce\<close> reads \<open>state[key]\<close>, assigns into the accumulator object and returns
  it.
\<close>

type_synonym ('v, 'a) reducer = "'v val \<Rightarrow> 'a \<Rightarrow> 'v val"

definition combineStep ::
  "(string \<times> ('v, 'a) reducer) list \<Rightarrow> addr \<Rightarrow> 'a \<Rightarrow> string \<Rightarrow>
   'v object store \<times> addr \<Rightarrow> 'v object store \<times> addr" where
  "combineStep reducers state action key acc =
     (case acc of (h, nextState) \<Rightarrow>
        (h[nextState :=
             setProp key (the (map_of reducers key) (getProp (h ! state) key) action)
               (h ! nextState)],
         nextState))"

definition combineReducers ::
  "(string \<times> ('v, 'a) reducer) list \<Rightarrow> 'v object store \<Rightarrow> addr option \<Rightarrow> 'a \<Rightarrow>
   'v object store \<times> addr" where
  "combineReducers reducers h0 stateArg action =
     (case (case stateArg of None \<Rightarrow> alloc h0 [] | Some r \<Rightarrow> (h0, r)) of
        (h1, state) \<Rightarrow>
          fold (combineStep reducers state action) (map fst reducers) (alloc h1 []))"

text \<open>A reducer for the examples: it returns its sub-state.\<close>

definition keepState :: "('v, 'a) reducer" where
  "keepState s action = s"

subsection \<open>pathFromMeta\<close>

text \<open>
  The meta object with its four fields \<open>collection\<close>, \<open>doc\<close>,
  \<open>subcollections\<close> and \<open>storeAs\<close>, in this order. The argument of
  \<open>pathFromMeta\<close> and the entries of \<open>subcollections\<close> may be \<open>undefined\<close>,
  so both are \<open>meta option\<close>.
\<close>

datatype meta =
  Meta "string option" "string option" "meta option list option" "string option"

text \<open>
  \<open>subcollections.map(pathFromMeta)\<close> visits the entries from left to right and the
  first exception leaves the loop: of a list of results, the first error, or all
  the values.
\<close>

fun collect :: "(error + 'a) list \<Rightarrow> error + 'a list" where
  "collect [] = Inr []"
| "collect (Inl e # rs) = Inl e"
| "collect (Inr v # rs) = (case collect rs of Inl e \<Rightarrow> Inl e | Inr vs \<Rightarrow> Inr (v # vs))"

fun pathFromMeta :: "meta option \<Rightarrow> error + string" where
  "pathFromMeta None = Inl MissingMetaError"
| "pathFromMeta (Some (Meta collection doc subcollections storeAs)) =
     (if truthy storeAs then Inr (str storeAs)
      else if \<not> truthy collection then Inl MissingCollectionError
      else
        let basePath = str collection;
            basePath = (if truthy doc then basePath @ ''.'' @ str doc else basePath)
        in (case subcollections of
              None \<Rightarrow> Inr basePath
            | Some subs \<Rightarrow>
                (case collect (map pathFromMeta subs) of
                   Inl e \<Rightarrow> Inl e
                 | Inr mappedCollections \<Rightarrow>
                     Inr (basePath @ ''.'' @ join ''.'' mappedCollections))))"

subsection \<open>updateObject and updateItemInArray\<close>

text \<open>
  \<open>Object.assign(target, source)\<close> assigns the source's own properties to the
  target one by one; \<open>updateObject\<close> is \<open>Object.assign({}, oldObject, newValues)\<close>.
\<close>

definition assign :: "'v object \<Rightarrow> 'v object \<Rightarrow> 'v object" where
  "assign target source = fold (\<lambda>(k, v). setProp k v) source target"

definition updateObject :: "'v object \<Rightarrow> 'v object \<Rightarrow> 'v object" where
  "updateObject oldObject newValues = assign (assign [] oldObject) newValues"

text \<open>
  The items are values of any type \<open>'r\<close>, \<open>id_of\<close> standing for the read of
  \<open>item.id\<close>; the function never looks into an item otherwise. The array argument is
  the address of an array in the store and \<open>map\<close> allocates its result.
\<close>

definition updateItemInArray ::
  "('r \<Rightarrow> 'i) \<Rightarrow> 'r list store \<Rightarrow> addr \<Rightarrow> 'i \<Rightarrow> ('r \<Rightarrow> 'r) \<Rightarrow> 'r list store \<times> addr" where
  "updateItemInArray id_of h array itemId updateItemCallback =
     alloc h
       (map (\<lambda>item. if id_of item \<noteq> itemId then item else updateItemCallback item)
          (h ! array))"

subsection \<open>preserveValuesFromState\<close>

text \<open>
  The values a preserve setting can take, by the kinds that the tests of the source
  tell apart: \<open>PBooleanObject b\<close> is the wrapper object \<open>new Boolean(b)\<close>,
  \<open>PObject\<close> any other object that is neither a function nor an array. The
  elements of an array are given as the property names they stand for.
\<close>

datatype 'v preserveSetting =
    PFunction "'v object \<Rightarrow> 'v object option \<Rightarrow> 'v object"
  | PBoolean bool
  | PBooleanObject bool
  | PArray "string list"
  | PUndefined
  | PNull
  | PNumber int
  | PBigInt int
  | PString string
  | PSymbol string
  | PObject "'v object"

text \<open>
  The tests of lodash. \<open>isBoolean\<close> holds of the two booleans and of Boolean
  wrapper objects.
\<close>

fun isFunction :: "'v preserveSetting \<Rightarrow> bool" where
  "isFunction (PFunction f) = True"
| "isFunction _ = False"

fun isBoolean :: "'v preserveSetting \<Rightarrow> bool" where
  "isBoolean (PBoolean b) = True"
| "isBoolean (PBooleanObject b) = True"
| "isBoolean _ = False"

fun isArray :: "'v preserveSetting \<Rightarrow> bool" where
  "isArray (PArray ks) = True"
| "isArray _ = False"

text \<open>
  JavaScript's truthiness of a setting: \<open>false\<close>, \<open>undefined\<close>, \<open>null\<close>, zero
  and the empty string are falsy, every object is truthy.
\<close>

fun truthySetting :: "'v preserveSetting \<Rightarrow> bool" where
  "truthySetting (PBoolean b) = b"
| "truthySetting PUndefined = False"
| "truthySetting PNull = False"
| "truthySetting (PNumber n) = (n \<noteq> 0)"
| "truthySetting (PBigInt n) = (n \<noteq> 0)"
| "truthySetting (PString s) = (s \<noteq> [])"
| "truthySetting _ = True"

text \<open>
  Modelled from the spec: \<open>pick\<close> is lodash's, which is not part of the repository's
  sources. It returns a new object holding only those of the named fields that the
  object has.
\<close>

definition pick :: "'v object \<Rightarrow> string list \<Rightarrow> 'v object" where
  "pick obj ks =
     fold (\<lambda>k res. case map_of obj k of None \<Rightarrow> res | Some v \<Rightarrow> AList.update k v res) ks []"

text \<open>
  The object literal \<open>{ ...state, ...nextState }\<close>: the own properties of the
  first, then those of the second, each defined on the new object.
\<close>

definition spread :: "'v object \<Rightarrow> 'v object \<Rightarrow> 'v object" where
  "spread state nextState =
     fold (\<lambda>(k, v). AList.update k v) nextState (fold (\<lambda>(k, v). AList.update k v) state [])"

text \<open>
  The tests are those of the source, in its order. The \<open>case\<close> after a test only
  takes the setting apart: its last branch is never reached. \<open>nextState\<close> is
  \<open>None\<close> when it is \<open>undefined\<close> or \<open>null\<close>; an object is truthy.
\<close>

definition preserveValuesFromState ::
  "'v object \<Rightarrow> 'v preserveSetting \<Rightarrow> 'v object option \<Rightarrow> error + 'v object" where
  "preserveValuesFromState state preserveSetting nextState =
     (if isFunction preserveSetting then
        (case preserveSetting of
           PFunction f \<Rightarrow> Inr (f state nextState)
         | _ \<Rightarrow> Inl InvalidPreserveSettingError)
      else if isBoolean preserveSetting \<and> truthySetting preserveSetting then
        (case nextState of None \<Rightarrow> Inr state | Some n \<Rightarrow> Inr (spread state n))
      else if isArray preserveSetting then
        (case preserveSetting of
           PArray ks \<Rightarrow> Inr (pick state ks)
         | _ \<Rightarrow> Inl InvalidPreserveSettingError)
      else Inl InvalidPreserveSettingError)"

section \<open>Properties\<close>

subsection \<open>Path strings\<close>

lemma split_slash_no_slash: "CHR ''/'' \<notin> set s \<Longrightarrow> split_slash s = [s]"
  by (induction s) auto

lemma split_slash_append:
  "CHR ''/'' \<notin> set s \<Longrightarrow> split_slash (s @ CHR ''/'' # t) = s # split_slash t"
  by (induction s) auto

lemma split_slash_pieces: "p \<in> set (split_slash s) \<Longrightarrow> CHR ''/'' \<notin> set p"
  by (induction s arbitrary: p) (auto split: if_splits list.splits)

text \<open>Splitting undoes joining with slashes, whatever segments are empty.\<close>

lemma split_slash_join:
  "segs \<noteq> [] \<Longrightarrow> \<forall>s\<in>set segs. CHR ''/'' \<notin> set s \<Longrightarrow> split_slash (join ''/'' segs) = segs"
  by (induction "''/''" segs rule: join.induct)
     (simp_all add: split_slash_no_slash split_slash_append)

lemma pathToArr_join:
  assumes "\<forall>s\<in>set segs. CHR ''/'' \<notin> set s"
  shows "pathToArr (Some (join ''/'' segs)) = filter (\<lambda>s. s \<noteq> []) segs"
proof (cases "segs = []")
  case True
  then show ?thesis by (simp add: pathToArr_def truthy_def)
next
  case False
  then have sp: "split_slash (join ''/'' segs) = segs"
    using assms by (rule split_slash_join)
  show ?thesis
  proof (cases "join ''/'' segs = []")
    case True
    with sp have "segs = [[]]" by simp
    with True show ?thesis by (simp add: pathToArr_def truthy_def)
  next
    case False
    with sp show ?thesis by (simp add: pathToArr_def truthy_def str_def)
  qed
qed

lemma pathToArr_no_slash: "p \<in> set (pathToArr path) \<Longrightarrow> CHR ''/'' \<notin> set p"
  by (auto simp: pathToArr_def dest: split_slash_pieces split: if_splits)

lemma set_join: "set (join sep xs) \<subseteq> set sep \<union> \<Union>(set ` set xs)"
  by (induction sep xs rule: join.induct) auto

text \<open>
  Claim C5. \<open>pathToArr\<close> never returns an empty segment; an undefined or empty path
  gives the empty sequence; and for any sequence of slash-free segments, some of
  them possibly empty (a leading, trailing or doubled slash), the path made of
  them joined by slashes is taken apart into exactly the non-empty ones, in their
  order. In particular \<open>pathToArr("/a//b/")\<close> is \<open>["a", "b"]\<close>.
\<close>

theorem pathToArr_segments:
  "[] \<notin> set (pathToArr path)
   \<and> pathToArr None = [] \<and> pathToArr (Some []) = []
   \<and> ((\<forall>s\<in>set segs. CHR ''/'' \<notin> set s) \<longrightarrow>
        pathToArr (Some (join ''/'' segs)) = filter (\<lambda>s. s \<noteq> []) segs)
   \<and> pathToArr (Some ''/a//b/'') = [''a'', ''b'']"
proof -
  have "[] \<notin> set (pathToArr path)"
    by (simp add: pathToArr_def)
  moreover have "pathToArr None = []" "pathToArr (Some []) = []"
    by (simp_all add: pathToArr_def truthy_def)
  moreover have "pathToArr (Some ''/a//b/'') = [''a'', ''b'']"
    by (simp add: pathToArr_def truthy_def str_def)
  ultimately show ?thesis
    using pathToArr_join [of segs] by blast
qed

theorem pathToArr_segments_witness:
  "join ''/'' [[], ''a'', [], ''b'', []] = ''/a//b/''
   \<and> pathToArr (Some (join ''/'' [[], ''a'', [], ''b'', []])) = [''a'', ''b'']
   \<and> [] \<notin> set (pathToArr (Some ''//''))"
  using pathToArr_segments [of "Some ''//''" "[[], ''a'', [], ''b'', []]"]
  by simp

text \<open>
  Claim C8. \<open>getDotStrPath\<close> and \<open>getSlashStrPath\<close> are idempotent: applied to
  their own output they return it unchanged, for every input.
\<close>

theorem getStrPath_idempotent:
  "getDotStrPath (Some (getDotStrPath x)) = getDotStrPath x
   \<and> getSlashStrPath (Some (getSlashStrPath x)) = getSlashStrPath x"
proof
  let ?s = "join ''.'' (pathToArr x)"
  have "CHR ''/'' \<notin> set ?s"
    using set_join [of "''.''" "pathToArr x"] pathToArr_no_slash [of _ x] by auto
  then have "split_slash ?s = [?s]"
    by (rule split_slash_no_slash)
  then have "pathToArr (Some ?s) = (if ?s = [] then [] else [?s])"
    by (simp add: pathToArr_def truthy_def str_def)
  then show "getDotStrPath (Some (getDotStrPath x)) = getDotStrPath x"
    by (simp add: getDotStrPath_def)
next
  have "\<forall>s\<in>set (pathToArr x). CHR ''/'' \<notin> set s"
    by (simp add: pathToArr_no_slash)
  then have "pathToArr (Some (join ''/'' (pathToArr x))) = filter (\<lambda>s. s \<noteq> []) (pathToArr x)"
    by (rule pathToArr_join)
  also have "\<dots> = pathToArr x"
    by (simp add: pathToArr_def)
  finally show "getSlashStrPath (Some (getSlashStrPath x)) = getSlashStrPath x"
    by (simp add: getSlashStrPath_def)
qed

theorem getStrPath_idempotent_witness:
  "getDotStrPath (Some ''/a//b/'') = ''a.b''
   \<and> getDotStrPath (Some (getDotStrPath (Some ''/a//b/''))) = ''a.b''
   \<and> getSlashStrPath (Some ''/a//b/'') = ''a/b''
   \<and> getSlashStrPath (Some (getSlashStrPath (Some ''/a//b/''))) = ''a/b''"
  using getStrPath_idempotent [of "Some ''/a//b/''"]
  by (simp add: getDotStrPath_def getSlashStrPath_def pathToArr_def truthy_def str_def)

subsection \<open>pathFromMeta\<close>

lemma collect_map_Inr: "collect (map Inr vs) = Inr vs"
  by (induction vs) auto

lemma collect_first_error:
  "\<forall>r\<in>set pre. \<not> isl r \<Longrightarrow> collect (pre @ Inl e # post) = Inl e"
proof (induction pre)
  case Nil
  then show ?case by simp
next
  case (Cons r pre)
  then obtain v where "r = Inr v" by (cases r) auto
  with Cons show ?case by simp
qed

lemma first_error_split:
  "\<exists>r\<in>set rs. isl r \<Longrightarrow> \<exists>pre e post. rs = pre @ Inl e # post \<and> (\<forall>r\<in>set pre. \<not> isl r)"
proof (induction rs)
  case Nil
  then show ?case by simp
next
  case (Cons r rs)
  show ?case
  proof (cases r)
    case (Inl e)
    then have "r # rs = [] @ Inl e # rs \<and> (\<forall>r\<in>set []. \<not> isl r)" by simp
    then show ?thesis by blast
  next
    case (Inr v)
    with Cons.prems have "\<exists>r\<in>set rs. isl r" by auto
    then obtain pre e post where "rs = pre @ Inl e # post" "\<forall>r\<in>set pre. \<not> isl r"
      using Cons.IH by blast
    with Inr have "r # rs = (r # pre) @ Inl e # post \<and> (\<forall>r\<in>set (r # pre). \<not> isl r)"
      by simp
    then show ?thesis by blast
  qed
qed

text \<open>What the function does once it is past the tests of \<open>storeAs\<close> and \<open>collection\<close>.\<close>

lemma pathFromMeta_subs:
  "truthy collection \<Longrightarrow> \<not> truthy storeAs \<Longrightarrow>
   pathFromMeta (Some (Meta collection doc (Some subs) storeAs)) =
     (case collect (map pathFromMeta subs) of
        Inl e \<Rightarrow> Inl e
      | Inr ps \<Rightarrow>
          Inr ((if truthy doc then str collection @ ''.'' @ str doc else str collection)
               @ ''.'' @ join ''.'' ps))"
  by (simp add: Let_def)

lemma errors_distinct: "MissingMetaError \<noteq> MissingCollectionError"
  by (simp add: MissingMetaError_def MissingCollectionError_def)

text \<open>
  Claim C1. For a meta with a collection (a non-empty string), no \<open>storeAs\<close> and a
  non-empty sequence of subcollections whose entries resolve to \<open>paths\<close>, the result
  is the base path (the collection, followed by a dot and the doc when there is
  one), a dot, and \<open>paths\<close> joined by dots in the order of the entries.
\<close>

theorem pathFromMeta_subcollections:
  assumes "truthy collection" and "\<not> truthy storeAs" and "subs \<noteq> []"
    and "map pathFromMeta subs = map Inr paths"
  shows "pathFromMeta (Some (Meta collection doc (Some subs) storeAs)) =
           Inr ((if truthy doc then str collection @ ''.'' @ str doc else str collection)
                @ ''.'' @ join ''.'' paths)"
  using assms(1,2,4) by (simp add: pathFromMeta_subs collect_map_Inr)

text \<open>The example of the specification: \<open>c.d.s1.s2.d2\<close>.\<close>

theorem pathFromMeta_subcollections_witness:
  "pathFromMeta (Some (Meta (Some ''c'') (Some ''d'')
      (Some [Some (Meta (Some ''s1'') None None None),
             Some (Meta (Some ''s2'') (Some ''d2'') None None)]) None)) = Inr ''c.d.s1.s2.d2''"
  using pathFromMeta_subcollections [of "Some ''c''" None
      "[Some (Meta (Some ''s1'') None None None), Some (Meta (Some ''s2'') (Some ''d2'') None None)]"
      "[''s1'', ''s2.d2'']" "Some ''d''"]
  by (simp add: truthy_def str_def)

text \<open>
  Claim C2. A meta whose \<open>storeAs\<close> is a non-empty string resolves to that string,
  whatever its collection, doc and subcollections are (also ones that would fail).
\<close>

theorem pathFromMeta_storeAs:
  "v \<noteq> [] \<Longrightarrow> pathFromMeta (Some (Meta collection doc subcollections (Some v))) = Inr v"
  by (simp add: truthy_def str_def)

theorem pathFromMeta_storeAs_witness:
  "pathFromMeta (Some (Meta (Some ''ignored'') None None (Some ''x''))) = Inr ''x''
   \<and> pathFromMeta (Some (Meta None (Some ''d'') (Some [None]) (Some ''x''))) = Inr ''x''"
  using pathFromMeta_storeAs [of "''x''" "Some ''ignored''" None None]
    pathFromMeta_storeAs [of "''x''" None "Some ''d''" "Some [None]"]
  by simp

text \<open>
  Claim C3. An absent meta fails with \<open>MissingMetaError\<close>; a meta with neither
  \<open>storeAs\<close> nor collection fails with \<open>MissingCollectionError\<close>, a different
  error; and where the subcollections are resolved (collection set, no
  \<open>storeAs\<close>), the error of the first entry that fails is the result, so that
  whenever some entry fails the result is the error of a failing entry and never a
  path.
\<close>

theorem pathFromMeta_errors:
  "pathFromMeta None = Inl MissingMetaError
   \<and> MissingMetaError \<noteq> MissingCollectionError
   \<and> (\<not> truthy storeAs \<and> \<not> truthy collection \<longrightarrow>
        pathFromMeta (Some (Meta collection doc subcollections storeAs)) =
          Inl MissingCollectionError)
   \<and> (truthy c \<and> \<not> truthy s \<and> (\<forall>m\<in>set pre. \<not> isl (pathFromMeta m))
        \<and> pathFromMeta x = Inl e \<longrightarrow>
        pathFromMeta (Some (Meta c d (Some (pre @ x # post)) s)) = Inl e)
   \<and> (truthy c \<and> \<not> truthy s \<and> (\<exists>m\<in>set subs. isl (pathFromMeta m)) \<longrightarrow>
        (\<exists>m\<in>set subs. isl (pathFromMeta m)
           \<and> pathFromMeta (Some (Meta c d (Some subs) s)) = pathFromMeta m))"
proof -
  have first: "pathFromMeta (Some (Meta c d (Some (pre @ x # post)) s)) = Inl e"
    if "truthy c" "\<not> truthy s" "\<forall>m\<in>set pre. \<not> isl (pathFromMeta m)"
      "pathFromMeta x = Inl e" for c d s pre x post e
  proof -
    have "collect (map pathFromMeta pre @ Inl e # map pathFromMeta post) = Inl e"
      using that(3) by (intro collect_first_error) auto
    with that show ?thesis
      by (simp add: pathFromMeta_subs)
  qed
  have some: "\<exists>m\<in>set subs. isl (pathFromMeta m)
      \<and> pathFromMeta (Some (Meta c d (Some subs) s)) = pathFromMeta m"
    if "truthy c" "\<not> truthy s" "\<exists>m\<in>set subs. isl (pathFromMeta m)"
  proof -
    from that(3) have "\<exists>r\<in>set (map pathFromMeta subs). isl r" by auto
    then obtain rpre e rpost
      where split: "map pathFromMeta subs = rpre @ Inl e # rpost"
        and ok: "\<forall>r\<in>set rpre. \<not> isl r"
      using first_error_split by blast
    then have "collect (map pathFromMeta subs) = Inl e"
      by (simp add: collect_first_error)
    with that have res: "pathFromMeta (Some (Meta c d (Some subs) s)) = Inl e"
      by (simp add: pathFromMeta_subs)
    have "Inl e \<in> set (map pathFromMeta subs)"
      using split by simp
    then obtain m where m: "m \<in> set subs" "pathFromMeta m = Inl e" by auto
    from m(2) res
    have "isl (pathFromMeta m)
        \<and> pathFromMeta (Some (Meta c d (Some subs) s)) = pathFromMeta m"
      by (simp del: pathFromMeta.simps)
    with m(1) show ?thesis by blast
  qed
  have coll: "pathFromMeta (Some (Meta collection doc subcollections storeAs)) =
          Inl MissingCollectionError"
    if "\<not> truthy storeAs" "\<not> truthy collection"
    using that by simp
  have absent: "pathFromMeta None = Inl MissingMetaError"
    by simp
  from absent errors_distinct coll first some show ?thesis
    by blast
qed

text \<open>
  A missing collection two levels down, behind an entry that resolves and before an
  undefined entry, and an undefined entry one level down.
\<close>

theorem pathFromMeta_errors_witness:
  "pathFromMeta (Some (Meta None None None None)) = Inl MissingCollectionError
   \<and> pathFromMeta (Some (Meta (Some ''c'') (Some ''d'')
        (Some ([Some (Meta (Some ''s1'') None None None)]
           @ Some (Meta (Some ''s2'') None (Some [Some (Meta None (Some ''d3'') None None)]) None)
           # [None])) None)) = Inl MissingCollectionError
   \<and> pathFromMeta (Some (Meta (Some ''c'') None (Some [None]) None)) = Inl MissingMetaError"
  using pathFromMeta_errors [of None None None None "Some ''c''" None
      "[Some (Meta (Some ''s1'') None None None)]"
      "Some (Meta (Some ''s2'') None (Some [Some (Meta None (Some ''d3'') None None)]) None)"
      MissingCollectionError "Some ''d''" "[None]" "[None]"]
  by (simp add: truthy_def str_def)

text \<open>
  Claim C9. With a collection, no \<open>storeAs\<close> and an empty sequence of
  subcollections, the result is the base path followed by a dot, not the base path.
\<close>

theorem pathFromMeta_empty_subcollections:
  assumes "truthy collection" and "\<not> truthy storeAs"
  shows "pathFromMeta (Some (Meta collection doc (Some []) storeAs)) =
           Inr ((if truthy doc then str collection @ ''.'' @ str doc else str collection) @ ''.'')
         \<and> pathFromMeta (Some (Meta collection doc (Some []) storeAs)) \<noteq>
           Inr (if truthy doc then str collection @ ''.'' @ str doc else str collection)"
  using assms by (simp add: pathFromMeta_subs)

theorem pathFromMeta_empty_subcollections_witness:
  "pathFromMeta (Some (Meta (Some ''c'') (Some ''d'') (Some []) None)) = Inr ''c.d.''"
  using pathFromMeta_empty_subcollections [of "Some ''c''" None "Some ''d''"]
  by (simp add: truthy_def str_def)

subsection \<open>combineReducers\<close>

lemma setProp_update: "key \<noteq> ''__proto__'' \<Longrightarrow> setProp key v obj = AList.update key v obj"
  by (simp add: setProp_def)

text \<open>
  The loop of \<open>reduce\<close> over keys other than \<open>__proto__\<close>: it keeps the
  accumulator's address, changes no other cell, and leaves in the accumulator one
  property for each key visited, holding what the key's reducer returns for
  \<open>state[key]\<close>.
\<close>

lemma combineStep_fold:
  assumes "nextState < length h" and "state \<noteq> nextState" and "''__proto__'' \<notin> set ks"
  shows "\<exists>h'. fold (combineStep reducers state action) ks (h, nextState) = (h', nextState)
      \<and> length h' = length h
      \<and> (\<forall>a. a \<noteq> nextState \<longrightarrow> h' ! a = h ! a)
      \<and> fst ` set (h' ! nextState) = fst ` set (h ! nextState) \<union> set ks
      \<and> (distinct (map fst (h ! nextState)) \<longrightarrow> distinct (map fst (h' ! nextState)))
      \<and> (\<forall>k. map_of (h' ! nextState) k =
            (if k \<in> set ks
             then Some (the (map_of reducers k) (getProp (h ! state) k) action)
             else map_of (h ! nextState) k))"
  using assms
proof (induction ks arbitrary: h)
  case Nil
  then show ?case by simp
next
  case (Cons key ks)
  let ?v = "the (map_of reducers key) (getProp (h ! state) key) action"
  let ?h1 = "h[nextState := AList.update key ?v (h ! nextState)]"
  have key: "key \<noteq> ''__proto__''" and ks: "''__proto__'' \<notin> set ks"
    using Cons.prems(3) by auto
  have step: "combineStep reducers state action key (h, nextState) = (?h1, nextState)"
    using key by (simp add: combineStep_def setProp_update)
  have len: "nextState < length ?h1" using Cons.prems by simp
  have st: "?h1 ! state = h ! state" using Cons.prems by simp
  have nx: "?h1 ! nextState = AList.update key ?v (h ! nextState)"
    using Cons.prems by simp
  from Cons.IH [OF len Cons.prems(2) ks] obtain h' where
    f: "fold (combineStep reducers state action) ks (?h1, nextState) = (h', nextState)"
    and l: "length h' = length ?h1"
    and o: "\<forall>a. a \<noteq> nextState \<longrightarrow> h' ! a = ?h1 ! a"
    and k: "fst ` set (h' ! nextState) = fst ` set (?h1 ! nextState) \<union> set ks"
    and d: "distinct (map fst (?h1 ! nextState)) \<longrightarrow> distinct (map fst (h' ! nextState))"
    and m: "\<forall>k. map_of (h' ! nextState) k =
            (if k \<in> set ks
             then Some (the (map_of reducers k) (getProp (?h1 ! state) k) action)
             else map_of (?h1 ! nextState) k)"
    by blast
  have "fold (combineStep reducers state action) (key # ks) (h, nextState) = (h', nextState)"
    using f step by simp
  moreover have "length h' = length h" using l by simp
  moreover have "\<forall>a. a \<noteq> nextState \<longrightarrow> h' ! a = h ! a" using o by simp
  moreover have "fst ` set (h' ! nextState) = fst ` set (h ! nextState) \<union> set (key # ks)"
    using k by (simp add: nx dom_update)
  moreover have "distinct (map fst (h ! nextState)) \<longrightarrow> distinct (map fst (h' ! nextState))"
    using d by (simp add: nx distinct_update)
  moreover have "\<forall>k. map_of (h' ! nextState) k =
            (if k \<in> set (key # ks)
             then Some (the (map_of reducers k) (getProp (h ! state) k) action)
             else map_of (h ! nextState) k)"
    using m by (simp add: nx st update_conv')
  ultimately show ?case by blast
qed

text \<open>
  Claim C4, as stated, fails on two kinds of keys. With the key \<open>constructor\<close> and
  no state, \<open>state[key]\<close> is not \<open>undefined\<close> but the function inherited from
  \<open>Object.prototype\<close>, and the reducer is applied to that. With the key
  \<open>__proto__\<close> the assignment creates no property, so the result has no key where
  the reducer map has one.
\<close>

theorem combineReducers_inherited_counterexample:
  "combineReducers [(''constructor'', keepState)] [] None ()
     = ([[], [(''constructor'', Builtin ''constructor'' :: unit val)]], 1)
   \<and> keepState (Undefined :: unit val) () \<noteq> Builtin ''constructor''
   \<and> combineReducers [(''__proto__'', keepState)] ([] :: unit object store) None ()
     = ([[], []], 1)
   \<and> set (map fst ([] :: unit object))
     \<noteq> set (map fst [(''__proto__'', keepState :: (unit, unit) reducer)])"
  by (simp add: combineReducers_def combineStep_def alloc_def getProp_def setProp_def
      objectPrototype_def keepState_def)

text \<open>
  Claim C4, amended. Let no key of the reducer map be \<open>__proto__\<close>. Called on a
  store \<open>h\<close> with the address of a state object in it (or with no state), the
  combined reducer returns the address \<open>r'\<close> of an object that did not exist in
  \<open>h\<close>, so it is not the state's; every object of \<open>h\<close>, the state among them, is
  left as it was; the keys of the new object are exactly the keys of the reducer
  map, each once, whatever keys the state has; and the value at each key is that
  key's reducer applied to \<open>state[key]\<close> and the action, where \<open>state[key]\<close> is
  the state's own property, else the property of that name inherited from
  \<open>Object.prototype\<close>, else \<open>undefined\<close>: it is \<open>undefined\<close> when there is no
  state or the state lacks the key, and the key is no property name of
  \<open>Object.prototype\<close>.
\<close>

theorem combineReducers_result:
  assumes valid: "case stateArg of None \<Rightarrow> True | Some r \<Rightarrow> r < length h"
    and noproto: "''__proto__'' \<notin> set (map fst reducers)"
    and res: "combineReducers reducers h stateArg action = (h', r')"
  shows "length h \<le> r' \<and> r' < length h' \<and> stateArg \<noteq> Some r'
     \<and> (\<forall>a<length h. h' ! a = h ! a)
     \<and> set (map fst (h' ! r')) = set (map fst reducers)
     \<and> distinct (map fst (h' ! r'))
     \<and> (\<forall>key f. map_of reducers key = Some f \<longrightarrow>
           map_of (h' ! r') key =
             Some (f (case stateArg of None \<Rightarrow> getProp [] key | Some r \<Rightarrow> getProp (h ! r) key)
                     action))
     \<and> (\<forall>key f. map_of reducers key = Some f \<and> key \<notin> set objectPrototype
             \<and> (case stateArg of None \<Rightarrow> True | Some r \<Rightarrow> map_of (h ! r) key = None) \<longrightarrow>
           map_of (h' ! r') key = Some (f Undefined action))"
proof -
  define h1 where "h1 = (case stateArg of None \<Rightarrow> h @ [[]] | Some r \<Rightarrow> h)"
  define state where "state = (case stateArg of None \<Rightarrow> length h | Some r \<Rightarrow> r)"
  define nextState where "nextState = length h1"
  have unfold: "combineReducers reducers h stateArg action =
      fold (combineStep reducers state action) (map fst reducers) (h1 @ [[]], nextState)"
    by (simp add: combineReducers_def alloc_def h1_def state_def nextState_def
        split: option.splits)
  have lt: "nextState < length (h1 @ [[]])"
    by (simp add: nextState_def)
  have ne: "state \<noteq> nextState"
    using valid by (auto simp: state_def nextState_def h1_def split: option.splits)
  have len: "length h \<le> nextState"
    by (simp add: nextState_def h1_def split: option.splits)
  have old: "(h1 @ [[]]) ! a = h ! a" if "a < length h" for a
    using that by (simp add: h1_def nth_append split: option.splits)
  have new: "(h1 @ [[]]) ! nextState = []"
    by (simp add: nextState_def)
  have st: "getProp ((h1 @ [[]]) ! state) key =
      (case stateArg of None \<Rightarrow> getProp [] key | Some r \<Rightarrow> getProp (h ! r) key)" for key
    using valid by (simp add: h1_def state_def nth_append split: option.splits)
  from combineStep_fold [OF lt ne noproto, of reducers action]
  obtain h2 where
    f: "fold (combineStep reducers state action) (map fst reducers) (h1 @ [[]], nextState)
          = (h2, nextState)"
    and l2: "length h2 = length (h1 @ [[]])"
    and o2: "\<forall>a. a \<noteq> nextState \<longrightarrow> h2 ! a = (h1 @ [[]]) ! a"
    and k2: "fst ` set (h2 ! nextState) =
          fst ` set ((h1 @ [[]]) ! nextState) \<union> set (map fst reducers)"
    and d2: "distinct (map fst ((h1 @ [[]]) ! nextState)) \<longrightarrow> distinct (map fst (h2 ! nextState))"
    and m2: "\<forall>k. map_of (h2 ! nextState) k =
            (if k \<in> set (map fst reducers)
             then Some (the (map_of reducers k) (getProp ((h1 @ [[]]) ! state) k) action)
             else map_of ((h1 @ [[]]) ! nextState) k)"
    by blast
  from f unfold res have r': "r' = nextState" and h': "h' = h2"
    by simp_all
  note l = l2 [folded h'] and o = o2 [folded h'] and k = k2 [folded h']
    and d = d2 [folded h'] and m = m2 [folded h']
  have 1: "length h \<le> r'" using len r' by simp
  have 2: "r' < length h'" using l r' lt by simp
  have 3: "stateArg \<noteq> Some r'"
    using valid 1 by (auto split: option.splits)
  have 4: "\<forall>a<length h. h' ! a = h ! a"
    using o old len by auto
  have 5: "set (map fst (h' ! r')) = set (map fst reducers)"
    using k by (simp add: r' new)
  have 6: "distinct (map fst (h' ! r'))"
    using d by (simp add: r' new)
  have 7: "map_of (h' ! r') key =
      Some (f (case stateArg of None \<Rightarrow> getProp [] key | Some r \<Rightarrow> getProp (h ! r) key) action)"
    if "map_of reducers key = Some f" for key f
  proof -
    from that have "key \<in> set (map fst reducers)"
      by (metis map_of_SomeD fst_conv image_eqI set_map)
    with m that show ?thesis by (simp add: r' st)
  qed
  have 8: "map_of (h' ! r') key = Some (f Undefined action)"
    if "map_of reducers key = Some f" "key \<notin> set objectPrototype"
      "case stateArg of None \<Rightarrow> True | Some r \<Rightarrow> map_of (h ! r) key = None" for key f
    using 7 [OF that(1)] that(2,3) by (simp add: getProp_def split: option.splits)
  from 1 2 3 4 5 6 7 8 show ?thesis by blast
qed

text \<open>
  A state with the extra key \<open>z\<close> and without the key \<open>b\<close>; a call without state;
  and the key \<open>toString\<close>, which every object inherits.
\<close>

theorem combineReducers_result_witness:
  "combineReducers
     [(''a'', (\<lambda>s act. case s of Val v \<Rightarrow> Val (v + act) | _ \<Rightarrow> Val act)), (''b'', keepState)]
     [[(''z'', Val 5), (''a'', Val (1::nat))]] (Some 0) (10::nat)
   = ([[(''z'', Val 5), (''a'', Val 1)], [(''a'', Val 11), (''b'', Undefined)]], 1)
   \<and> combineReducers
     [(''a'', (\<lambda>s act. case s of Val v \<Rightarrow> Val (v + act) | _ \<Rightarrow> Val act)), (''b'', keepState)]
     [[(''z'', Val 5), (''a'', Val (1::nat))]] None (10::nat)
   = ([[(''z'', Val 5), (''a'', Val 1)], [], [(''a'', Val 10), (''b'', Undefined)]], 2)
   \<and> combineReducers [(''toString'', keepState)] [[(''z'', Val (5::nat))]] (Some 0) (10::nat)
   = ([[(''z'', Val 5)], [(''toString'', Builtin ''toString'')]], 1)"
  using combineReducers_result [where stateArg = "Some 0"
     and h = "[[(''z'', Val 5), (''a'', Val (1::nat))]]"
     and reducers = "[(''a'', (\<lambda>s act. case s of Val v \<Rightarrow> Val (v + act) | _ \<Rightarrow> Val act)), (''b'', keepState)]"
     and action = "10::nat"
     and h' = "[[(''z'', Val 5), (''a'', Val 1)], [(''a'', Val 11), (''b'', Undefined)]]"
     and r' = 1]
    combineReducers_result [where stateArg = None
     and h = "[[(''z'', Val 5), (''a'', Val (1::nat))]]"
     and reducers = "[(''a'', (\<lambda>s act. case s of Val v \<Rightarrow> Val (v + act) | _ \<Rightarrow> Val act)), (''b'', keepState)]"
     and action = "10::nat"
     and h' = "[[(''z'', Val 5), (''a'', Val 1)], [], [(''a'', Val 10), (''b'', Undefined)]]"
     and r' = 2]
    combineReducers_result [where stateArg = "Some 0"
     and h = "[[(''z'', Val (5::nat))]]"
     and reducers = "[(''toString'', keepState)]"
     and action = "10::nat"
     and h' = "[[(''z'', Val 5)], [(''toString'', Builtin ''toString'')]]"
     and r' = 1]
  by (simp add: combineReducers_def combineStep_def alloc_def getProp_def setProp_def
      objectPrototype_def keepState_def)

subsection \<open>updateItemInArray\<close>

lemma updateItemInArray_alloc:
  "updateItemInArray id_of h array itemId cb = (h', r) \<Longrightarrow>
   r = length h \<and> h' = h @ [map (\<lambda>item. if id_of item \<noteq> itemId then item else cb item) (h ! array)]"
  by (auto simp: updateItemInArray_def alloc_def)

text \<open>
  Claim C6. Called with the address of an array in the store, \<open>updateItemInArray\<close>
  returns the address of a new array (the arrays already in the store, the input
  among them, are unchanged) of the same length, in which the element at each
  position is the input's element itself when its id differs from the target and
  the callback's result for it when its id is the target. When no id is the
  target, the new array equals the input; the function has no failing case.
\<close>

theorem updateItemInArray_result:
  assumes "array < length h"
    and "updateItemInArray id_of h array itemId updateItemCallback = (h', r)"
  shows "r \<noteq> array \<and> length h \<le> r \<and> r < length h'
     \<and> (\<forall>a<length h. h' ! a = h ! a)
     \<and> length (h' ! r) = length (h ! array)
     \<and> (\<forall>i<length (h ! array).
           h' ! r ! i = (if id_of (h ! array ! i) \<noteq> itemId then h ! array ! i
                         else updateItemCallback (h ! array ! i)))
     \<and> ((\<forall>item\<in>set (h ! array). id_of item \<noteq> itemId) \<longrightarrow> h' ! r = h ! array)"
proof -
  from assms(2) have r: "r = length h"
    and h': "h' = h @ [map (\<lambda>item. if id_of item \<noteq> itemId then item
                                   else updateItemCallback item) (h ! array)]"
    using updateItemInArray_alloc by fastforce+
  have "(\<forall>item\<in>set (h ! array). id_of item \<noteq> itemId) \<longrightarrow> h' ! r = h ! array"
    by (auto simp: r h' map_idI)
  then show ?thesis
    using assms(1) by (simp add: r h' nth_append)
qed

text \<open>
  The example of the specification, items being pairs of an id and a value, and a
  target id that no item has.
\<close>

theorem updateItemInArray_result_witness:
  "updateItemInArray fst [[(1::nat, ''a''), (2, ''b'')]] 0 2 (\<lambda>item. (fst item, ''c''))
     = ([[(1, ''a''), (2, ''b'')], [(1, ''a''), (2, ''c'')]], 1)
   \<and> updateItemInArray fst [[(1::nat, ''a''), (2, ''b'')]] 0 3 (\<lambda>item. (fst item, ''c''))
     = ([[(1, ''a''), (2, ''b'')], [(1, ''a''), (2, ''b'')]], 1)"
  using updateItemInArray_result [where array = 0 and h = "[[(1::nat, ''a''), (2, ''b'')]]"
      and id_of = fst and itemId = 2 and updateItemCallback = "\<lambda>item. (fst item, ''c'')"
      and h' = "[[(1, ''a''), (2, ''b'')], [(1, ''a''), (2, ''c'')]]" and r = 1]
    updateItemInArray_result [where array = 0 and h = "[[(1::nat, ''a''), (2, ''b'')]]"
      and id_of = fst and itemId = 3 and updateItemCallback = "\<lambda>item. (fst item, ''c'')"
      and h' = "[[(1, ''a''), (2, ''b'')], [(1, ''a''), (2, ''b'')]]" and r = 1]
  by (simp add: updateItemInArray_def alloc_def)

text \<open>
  Claim C10. When more than one element of the array has the target id, every one
  of them (not only the first) is replaced by the callback's result for it.
\<close>

theorem updateItemInArray_all_matches:
  assumes "array < length h"
    and "1 < length (filter (\<lambda>item. id_of item = itemId) (h ! array))"
    and "updateItemInArray id_of h array itemId updateItemCallback = (h', r)"
  shows "\<forall>i<length (h ! array). id_of (h ! array ! i) = itemId \<longrightarrow>
           h' ! r ! i = updateItemCallback (h ! array ! i)"
proof -
  from assms(3) have r: "r = length h"
    and h': "h' = h @ [map (\<lambda>item. if id_of item \<noteq> itemId then item
                                   else updateItemCallback item) (h ! array)]"
    using updateItemInArray_alloc by fastforce+
  show ?thesis
    by (simp add: r h')
qed

theorem updateItemInArray_all_matches_witness:
  "updateItemInArray fst [[(2::nat, ''a''), (1, ''b''), (2, ''d'')]] 0 2 (\<lambda>item. (fst item, ''c''))
     = ([[(2, ''a''), (1, ''b''), (2, ''d'')], [(2, ''c''), (1, ''b''), (2, ''c'')]], 1)"
  using updateItemInArray_all_matches [where array = 0
      and h = "[[(2::nat, ''a''), (1, ''b''), (2, ''d'')]]"
      and id_of = fst and itemId = 2 and updateItemCallback = "\<lambda>item. (fst item, ''c'')"
      and h' = "[[(2, ''a''), (1, ''b''), (2, ''d'')], [(2, ''c''), (1, ''b''), (2, ''c'')]]" and r = 1]
  by (simp add: updateItemInArray_def alloc_def)

subsection \<open>preserveValuesFromState\<close>

text \<open>
  Claim C7, as stated, fails on a Boolean wrapper object: \<open>new Boolean(false)\<close> is
  not a function, not \<open>true\<close> and not an array, but \<open>isBoolean\<close> holds of it and,
  being an object, it is truthy, so the prior state is returned (merged with the
  next state when there is one).
\<close>

theorem preserveValuesFromState_wrapper_counterexample:
  "\<not> isFunction (PBooleanObject False :: nat preserveSetting)
   \<and> (PBooleanObject False :: nat preserveSetting) \<noteq> PBoolean True
   \<and> \<not> isArray (PBooleanObject False :: nat preserveSetting)
   \<and> preserveValuesFromState [(''a'', Val (1::nat))] (PBooleanObject False) None
       = Inr [(''a'', Val 1)]
   \<and> preserveValuesFromState [(''a'', Val (1::nat))] (PBooleanObject False)
         (Some [(''b'', Val 2)])
       = Inr [(''a'', Val 1), (''b'', Val 2)]"
  by (simp add: preserveValuesFromState_def spread_def)

text \<open>
  Claim C7, amended. For any prior and next state, a preserve setting that is not a
  function, not \<open>true\<close>, not a Boolean wrapper object and not an array makes
  \<open>preserveValuesFromState\<close> fail with \<open>InvalidPreserveSettingError\<close>: so do
  \<open>false\<close>, \<open>null\<close>, \<open>undefined\<close>, every number, every string and every other
  object.
\<close>

theorem preserveValuesFromState_invalid:
  "(\<not> isFunction preserveSetting \<and> preserveSetting \<noteq> PBoolean True
      \<and> (\<forall>b. preserveSetting \<noteq> PBooleanObject b) \<and> \<not> isArray preserveSetting
      \<longrightarrow> preserveValuesFromState state preserveSetting nextState = Inl InvalidPreserveSettingError)
   \<and> preserveValuesFromState state (PBoolean False) nextState = Inl InvalidPreserveSettingError
   \<and> preserveValuesFromState state PNull nextState = Inl InvalidPreserveSettingError
   \<and> preserveValuesFromState state PUndefined nextState = Inl InvalidPreserveSettingError
   \<and> preserveValuesFromState state (PNumber n) nextState = Inl InvalidPreserveSettingError
   \<and> preserveValuesFromState state (PString s) nextState = Inl InvalidPreserveSettingError
   \<and> preserveValuesFromState state (PObject obj) nextState = Inl InvalidPreserveSettingError"
  by (cases preserveSetting) (auto simp: preserveValuesFromState_def)

theorem preserveValuesFromState_invalid_witness:
  "preserveValuesFromState [(''a'', Val (1::nat))] (PNumber 42) (Some [(''b'', Val 2)])
     = Inl InvalidPreserveSettingError
   \<and> preserveValuesFromState [(''a'', Val (1::nat))] (PBoolean False) None
     = Inl InvalidPreserveSettingError"
  using preserveValuesFromState_invalid [where preserveSetting = "PNumber 42"
      and state = "[(''a'', Val (1::nat))]" and nextState = "Some [(''b'', Val 2)]"]
    preserveValuesFromState_invalid [where preserveSetting = "PBoolean False"
      and state = "[(''a'', Val (1::nat))]" and nextState = None]
  by simp

end
